theory Spec2Isabelle
  imports Main "HOL-Library.Word"
begin

section \<open>The Malmo logger (Malmo/src/Logger.h)\<close>

text \<open>
  A shallow embedding of class \<open>Logger\<close> and of \<open>LogSection\<close>. Every member function
  becomes a function from the logger's state to the state it leaves behind, run to
  completion by one thread. What a function takes from outside the class is a parameter:
  the text of the timestamp that \<open>microsec_clock::universal_time()\<close> streams, the
  texts that \<open>operator<<\<close> produces for the arguments of \<open>print\<close>, the readings
  of \<open>system_clock::now()\<close>, and whether the file system lets a path be opened.
\<close>

subsection \<open>Data\<close>

datatype LoggingSeverityLevel =
    LOG_OFF
  | LOG_ERRORS
  | LOG_WARNINGS
  | LOG_INFO
  | LOG_FINE
  | LOG_TRACE
  | LOG_ALL

text \<open>The value of each enumerator, which is what \<open>level > severity_level\<close> compares.\<close>

fun level_value :: "LoggingSeverityLevel \<Rightarrow> nat" where
  "level_value LOG_OFF = 0"
| "level_value LOG_ERRORS = 1"
| "level_value LOG_WARNINGS = 2"
| "level_value LOG_INFO = 3"
| "level_value LOG_FINE = 4"
| "level_value LOG_TRACE = 5"
| "level_value LOG_ALL = 6"

text \<open>
  What the code does to \<open>write_guard\<close> and to the sink, in program order. The constructors
  are the operations of \<open>std::timed_mutex\<close> (\<open>try_lock_for\<close> carries its result) and one
  record written by \<open>performWrite\<close>.
\<close>

datatype event =
    MutexLock
  | MutexTryLockFor bool
  | MutexUnlock
  | SinkWrite string

text \<open>
  The fields of \<open>Logger\<close>. The two \<open>int\<close> counters are 32-bit words read with \<open>sint\<close>;
  C++ leaves their overflow undefined and the model wraps, as the two's complement
  targets do. \<open>writer\<close> is the path of the file the \<open>std::ofstream\<close> has open, if any;
  \<open>files\<close> is the text of every file and \<open>console\<close> the text sent to \<open>std::cout\<close>.
  \<open>events\<close> is the history of mutex operations and sink writes. The thread handle
  \<open>logger_backend\<close> and the unused members \<open>spooler\<close> and \<open>terminated\<close> have no field.
\<close>

record Logger =
  severity_level :: LoggingSeverityLevel
  line_number :: "32 word"
  indentation :: "32 word"
  log_buffer :: "string list"
  has_backend :: bool
  is_spooling :: bool
  writer :: "string option"
  files :: "string \<Rightarrow> string"
  console :: string
  events :: "event list"

text \<open>
  The constructor, with the member initialiser \<open>severity_level{ LOG_OFF }\<close>; the stream
  starts closed and the buffer empty. The file system it finds is a parameter.
\<close>

definition Logger_ctor :: "(string \<Rightarrow> string) \<Rightarrow> Logger" where
  "Logger_ctor fs =
     \<lparr> severity_level = LOG_OFF, line_number = 0, indentation = 0, log_buffer = [],
       has_backend = False, is_spooling = False, writer = None, files = fs,
       console = [], events = [] \<rparr>"

definition setSeverityLevel :: "LoggingSeverityLevel \<Rightarrow> Logger \<Rightarrow> Logger" where
  "setSeverityLevel level s = s\<lparr>severity_level := level\<rparr>"

subsection \<open>The mutex\<close>

definition lock :: "Logger \<Rightarrow> Logger" where
  "lock s = s\<lparr>events := events s @ [MutexLock]\<rparr>"

definition unlock :: "Logger \<Rightarrow> Logger" where
  "unlock s = s\<lparr>events := events s @ [MutexUnlock]\<rparr>"

subsection \<open>Formatting and buffering\<close>

text \<open>The \<open>switch\<close> of \<open>print\<close>: \<open>LOG_ALL\<close> falls into \<open>LOG_ERRORS\<close>, \<open>LOG_OFF\<close> shares \<open>LOG_TRACE\<close>.\<close>

fun severity_label :: "LoggingSeverityLevel \<Rightarrow> string" where
  "severity_label LOG_ALL = ''ERROR   ''"
| "severity_label LOG_ERRORS = ''ERROR   ''"
| "severity_label LOG_WARNINGS = ''WARNING ''"
| "severity_label LOG_INFO = ''INFO    ''"
| "severity_label LOG_FINE = ''FINE    ''"
| "severity_label LOG_TRACE = ''TRACE   ''"
| "severity_label LOG_OFF = ''TRACE   ''"

text \<open>\<open>for (int i = 0; i < indentation; i++) message_stream << "    "\<close>: nothing when the counter is negative.\<close>

definition indent_spaces :: "32 word \<Rightarrow> string" where
  "indent_spaces d = concat (replicate (nat (sint d)) ''    '')"

text \<open>
  \<open>print_impl\<close>: the variadic overload streams the first parameter and recurses on the
  others; the last overload pushes the text of the stream onto the buffer under a
  \<open>lock_guard\<close>. The text is stored as it is.
\<close>

fun print_impl :: "string \<Rightarrow> string list \<Rightarrow> Logger \<Rightarrow> Logger" where
  "print_impl message_stream [] s =
     unlock ((lock s)\<lparr>log_buffer := log_buffer (lock s) @ [message_stream]\<rparr>)"
| "print_impl message_stream (param1 # params) s =
     print_impl (message_stream @ param1) params s"

text \<open>\<open>print<level>(args...)\<close>, at the timestamp text \<open>now\<close>.\<close>

definition print :: "LoggingSeverityLevel \<Rightarrow> string \<Rightarrow> string list \<Rightarrow> Logger \<Rightarrow> Logger" where
  "print level now args s =
     (if level_value level > level_value (severity_level s) then s
      else
        let message_stream =
              now @ '' P '' @ severity_label level @ indent_spaces (indentation s);
            s1 = print_impl message_stream args s
        in s1\<lparr>line_number := line_number s1 + 1\<rparr>)"

text \<open>\<open>appendToLog\<close>: a \<open>switch\<close> with no case for \<open>LOG_OFF\<close> and no default.\<close>

fun appendToLog :: "LoggingSeverityLevel \<Rightarrow> string \<Rightarrow> string \<Rightarrow> Logger \<Rightarrow> Logger" where
  "appendToLog LOG_ERRORS now message s = print LOG_ERRORS now [message] s"
| "appendToLog LOG_WARNINGS now message s = print LOG_WARNINGS now [message] s"
| "appendToLog LOG_INFO now message s = print LOG_INFO now [message] s"
| "appendToLog LOG_FINE now message s = print LOG_FINE now [message] s"
| "appendToLog LOG_TRACE now message s = print LOG_TRACE now [message] s"
| "appendToLog LOG_ALL now message s = print LOG_ALL now [message] s"
| "appendToLog LOG_OFF now message s = s"

subsection \<open>The sink\<close>

text \<open>\<open>str.erase(std::remove(str.begin(), str.end(), '\n'), str.end())\<close>\<close>

definition strip_newlines :: "string \<Rightarrow> string" where
  "strip_newlines str = filter (\<lambda>c. c \<noteq> CHR 0x0A) str"

text \<open>
  \<open>performWrite\<close>: a copy of the line without its newlines, then \<open>std::endl\<close>, to the
  file when the stream is open and to \<open>std::cout\<close> otherwise. A write to an open file
  is taken to succeed.
\<close>

definition performWrite :: "string \<Rightarrow> Logger \<Rightarrow> Logger" where
  "performWrite logline s =
     (let str = strip_newlines logline;
          s1 = (case writer s of
                  Some path \<Rightarrow> s\<lparr>files := (files s)(path := files s path @ str @ [CHR 0x0A])\<rparr>
                | None \<Rightarrow> s\<lparr>console := console s @ str @ [CHR 0x0A]\<rparr>)
      in s1\<lparr>events := events s1 @ [SinkWrite str]\<rparr>)"

text \<open>\<open>clear_backlog\<close>: the range-for over the buffer, then \<open>log_buffer.clear()\<close>.\<close>

definition clear_backlog :: "Logger \<Rightarrow> Logger" where
  "clear_backlog s = (fold performWrite (log_buffer s) s)\<lparr>log_buffer := []\<rparr>"

text \<open>
  \<open>std::ofstream::close\<close> and \<open>std::ofstream::open\<close> with \<open>out | app\<close>. Opening fails,
  and leaves the stream as it was, when the stream has a file open already or when the
  file system refuses the path (\<open>can_open\<close>); a failure only sets the stream's failbit.
  Append mode keeps the text the file has.
\<close>

definition writer_close :: "Logger \<Rightarrow> Logger" where
  "writer_close s = s\<lparr>writer := None\<rparr>"

definition writer_open :: "(string \<Rightarrow> bool) \<Rightarrow> string \<Rightarrow> Logger \<Rightarrow> Logger" where
  "writer_open can_open file s =
     (if writer s \<noteq> None then s
      else if can_open file then s\<lparr>writer := Some file\<rparr>
      else s)"

definition setFilename :: "(string \<Rightarrow> bool) \<Rightarrow> string \<Rightarrow> Logger \<Rightarrow> Logger" where
  "setFilename can_open file s =
     writer_open can_open file (if writer s \<noteq> None then writer_close s else s)"

definition setLogging ::
  "(string \<Rightarrow> bool) \<Rightarrow> string \<Rightarrow> LoggingSeverityLevel \<Rightarrow> Logger \<Rightarrow> Logger" where
  "setLogging can_open filename level s =
     setSeverityLevel level (setFilename can_open filename s)"

subsection \<open>Sections\<close>

definition indent :: "Logger \<Rightarrow> Logger" where
  "indent s = unlock ((lock s)\<lparr>indentation := indentation (lock s) + 1\<rparr>)"

definition unindent :: "Logger \<Rightarrow> Logger" where
  "unindent s = unlock ((lock s)\<lparr>indentation := indentation (lock s) - 1\<rparr>)"

text \<open>
  The constructor and the destructor of \<open>LogSection<level>\<close>; each \<open>print\<close> reads the
  clock for itself.
\<close>

definition LogSection_ctor ::
  "LoggingSeverityLevel \<Rightarrow> string \<Rightarrow> string \<Rightarrow> string \<Rightarrow> Logger \<Rightarrow> Logger" where
  "LogSection_ctor level now1 now2 title s =
     indent (print level now2 [''{''] (print level now1 [title] s))"

definition LogSection_dtor :: "LoggingSeverityLevel \<Rightarrow> string \<Rightarrow> Logger \<Rightarrow> Logger" where
  "LogSection_dtor level now s = print level now [''}''] (unindent s)"

subsection \<open>The spooler\<close>

text \<open>
  One round of the \<open>do\<close> loop of \<open>log_spooler\<close>, after its \<open>sleep_for\<close>. The loop
  repeats the round until \<open>is_spooling.test_and_set()\<close> finds the flag cleared, which
  the destructor does from another thread.
\<close>

definition spool_iteration :: "Logger \<Rightarrow> Logger" where
  "spool_iteration s =
     (if length (log_buffer s) \<noteq> 0 then unlock (clear_backlog (lock s)) else s)"

subsection \<open>Teardown\<close>

text \<open>
  \<open>while (has_backend && (system_clock::now() - start).count() < 2.0);\<close> Each round
  reads the atomic \<open>has_backend\<close>, which the worker sets, and the clock; \<open>count()\<close> is
  the number of ticks of \<open>system_clock::duration\<close>. The readings are a parameter, one
  pair per round, and the result is the pair at which the loop ends (\<open>None\<close> when the
  readings end first).
\<close>

fun wait_for_backend :: "int \<Rightarrow> (bool \<times> int) list \<Rightarrow> (bool \<times> int) option" where
  "wait_for_backend start [] = None"
| "wait_for_backend start ((backend, now) # rest) =
     (if backend \<and> now - start < 2 then wait_for_backend start rest
      else Some (backend, now))"

text \<open>
  \<open>~Logger\<close>: the threshold goes to \<open>LOG_OFF\<close>, the flag is cleared, the wait runs on the
  readings it is given, then \<open>clear_backlog\<close> is called as it is, with no operation on
  \<open>write_guard\<close>, and the stream is closed if it is open. There is no result while the
  wait lasts. What the worker does to the logger during the wait is not part of the
  function, and \<open>detach\<close> acts on the thread handle, which has no field.
\<close>

definition Logger_dtor :: "int \<Rightarrow> (bool \<times> int) list \<Rightarrow> Logger \<Rightarrow> Logger option" where
  "Logger_dtor start readings s =
     (let s1 = s\<lparr>severity_level := LOG_OFF\<rparr>;
          s2 = s1\<lparr>is_spooling := False\<rparr>
      in case wait_for_backend start readings of
           None \<Rightarrow> None
         | Some _ \<Rightarrow>
             let s3 = clear_backlog s2
             in Some (if writer s3 \<noteq> None then writer_close s3 else s3))"

subsection \<open>Notions used in the properties\<close>

text \<open>The text of the sink that \<open>performWrite\<close> currently writes to.\<close>

definition sink_text :: "Logger \<Rightarrow> string" where
  "sink_text s = (case writer s of Some path \<Rightarrow> files s path | None \<Rightarrow> console s)"

text \<open>One record as \<open>print\<close> builds it, for a message text and an indentation.\<close>

definition log_line :: "LoggingSeverityLevel \<Rightarrow> string \<Rightarrow> 32 word \<Rightarrow> string \<Rightarrow> string" where
  "log_line level now depth message =
     now @ '' P '' @ severity_label level @ indent_spaces depth @ message"

text \<open>Whether a call at \<open>level\<close> passes the threshold of the state.\<close>

definition enabled :: "LoggingSeverityLevel \<Rightarrow> Logger \<Rightarrow> bool" where
  "enabled level s = (level_value level \<le> level_value (severity_level s))"

text \<open>
  Readings of a history of events, from a state of the mutex (\<open>held\<close>):
  every sink write happens while the mutex is free, respectively while it is held.
\<close>

fun writes_unlocked :: "bool \<Rightarrow> event list \<Rightarrow> bool" where
  "writes_unlocked held [] = True"
| "writes_unlocked held (MutexLock # es) = writes_unlocked True es"
| "writes_unlocked held (MutexTryLockFor ok # es) = writes_unlocked (held \<or> ok) es"
| "writes_unlocked held (MutexUnlock # es) = writes_unlocked False es"
| "writes_unlocked held (SinkWrite l # es) = (\<not> held \<and> writes_unlocked held es)"

fun writes_locked :: "bool \<Rightarrow> event list \<Rightarrow> bool" where
  "writes_locked held [] = True"
| "writes_locked held (MutexLock # es) = writes_locked True es"
| "writes_locked held (MutexTryLockFor ok # es) = writes_locked (held \<or> ok) es"
| "writes_locked held (MutexUnlock # es) = writes_locked False es"
| "writes_locked held (SinkWrite l # es) = (held \<and> writes_locked held es)"

text \<open>Every sink write comes after a timed attempt to take the mutex (\<open>tried\<close>: one was made).\<close>

fun writes_after_timed_attempt :: "bool \<Rightarrow> event list \<Rightarrow> bool" where
  "writes_after_timed_attempt tried [] = True"
| "writes_after_timed_attempt tried (MutexTryLockFor ok # es) = writes_after_timed_attempt True es"
| "writes_after_timed_attempt tried (SinkWrite l # es) =
     (tried \<and> writes_after_timed_attempt tried es)"
| "writes_after_timed_attempt tried (MutexLock # es) = writes_after_timed_attempt tried es"
| "writes_after_timed_attempt tried (MutexUnlock # es) = writes_after_timed_attempt tried es"

text \<open>
  The \<open>count()\<close> of a duration of \<open>n\<close> seconds on a clock that ticks \<open>ticks_per_second\<close>
  times a second. The period of \<open>system_clock\<close> belongs to the standard library:
  \<open>10^9\<close> ticks a second in libstdc++, \<open>10^7\<close> in the Microsoft library, \<open>10^6\<close> in libc++.
\<close>

definition seconds_count :: "int \<Rightarrow> int \<Rightarrow> int" where
  "seconds_count ticks_per_second n = n * ticks_per_second"

text \<open>The events that are operations on the mutex.\<close>

fun is_mutex_event :: "event \<Rightarrow> bool" where
  "is_mutex_event (SinkWrite l) = False"
| "is_mutex_event e = True"

section \<open>Properties\<close>

subsection \<open>Helper lemmas\<close>

lemma print_impl_buffer:
  "log_buffer (print_impl ms args s) = log_buffer s @ [ms @ concat args]"
  by (induction args arbitrary: ms) (simp_all add: lock_def unlock_def)

lemma print_buffer:
  "log_buffer (print level now args s) =
     (if enabled level s
      then log_buffer s @ [log_line level now (indentation s) (concat args)]
      else log_buffer s)"
  by (simp add: print_def enabled_def log_line_def print_impl_buffer Let_def not_less)

lemma performWrite_fields:
  "writer (performWrite l s) = writer s"
  "log_buffer (performWrite l s) = log_buffer s"
  "severity_level (performWrite l s) = severity_level s"
  "indentation (performWrite l s) = indentation s"
  "events (performWrite l s) = events s @ [SinkWrite (strip_newlines l)]"
  by (simp_all add: performWrite_def Let_def split: option.splits)

lemma performWrite_sink_text:
  "sink_text (performWrite l s) = sink_text s @ strip_newlines l @ [CHR 0x0A]"
  by (simp add: performWrite_def sink_text_def Let_def split: option.splits)

lemma performWrite_console:
  "writer s = None \<Longrightarrow> console (performWrite l s) = console s @ strip_newlines l @ [CHR 0x0A]"
  "writer s = None \<Longrightarrow> files (performWrite l s) = files s"
  by (simp_all add: performWrite_def Let_def)

lemma fold_performWrite_fields:
  "writer (fold performWrite ls s) = writer s"
  "log_buffer (fold performWrite ls s) = log_buffer s"
  "severity_level (fold performWrite ls s) = severity_level s"
  "indentation (fold performWrite ls s) = indentation s"
  by (induction ls arbitrary: s; simp add: performWrite_fields)+

lemma fold_performWrite_events:
  "events (fold performWrite ls s) = events s @ map (\<lambda>l. SinkWrite (strip_newlines l)) ls"
  by (induction ls arbitrary: s) (simp_all add: performWrite_fields)

lemma fold_performWrite_sink_text:
  "sink_text (fold performWrite ls s) =
     sink_text s @ concat (map (\<lambda>l. strip_newlines l @ [CHR 0x0A]) ls)"
  by (induction ls arbitrary: s) (simp_all add: performWrite_sink_text)

lemma fold_performWrite_console:
  "writer s = None \<Longrightarrow>
     console (fold performWrite ls s) =
       console s @ concat (map (\<lambda>l. strip_newlines l @ [CHR 0x0A]) ls) \<and>
     files (fold performWrite ls s) = files s"
  by (induction ls arbitrary: s) (simp_all add: performWrite_console performWrite_fields)

lemma strip_newlines_id: "CHR 0x0A \<notin> set l \<Longrightarrow> strip_newlines l = l"
  unfolding strip_newlines_def by (induction l) auto

lemma map_strip_newlines_id:
  "list_all (\<lambda>l. CHR 0x0A \<notin> set l) ls \<Longrightarrow>
     map (\<lambda>l. strip_newlines l @ [CHR 0x0A]) ls = map (\<lambda>l. l @ [CHR 0x0A]) ls"
  by (induction ls) (simp_all add: strip_newlines_id)

lemma clear_backlog_sink_text:
  "sink_text (clear_backlog s) =
     sink_text s @ concat (map (\<lambda>l. strip_newlines l @ [CHR 0x0A]) (log_buffer s))"
proof -
  have "sink_text (clear_backlog s) = sink_text (fold performWrite (log_buffer s) s)"
    by (simp add: clear_backlog_def sink_text_def split: option.splits)
  then show ?thesis
    by (simp add: fold_performWrite_sink_text)
qed

lemma clear_backlog_events:
  "events (clear_backlog s) = events s @ map (\<lambda>l. SinkWrite (strip_newlines l)) (log_buffer s)"
  by (simp add: clear_backlog_def fold_performWrite_events)

lemma clear_backlog_buffer: "log_buffer (clear_backlog s) = []"
  by (simp add: clear_backlog_def)

lemma clear_backlog_fields:
  "writer (clear_backlog s) = writer s"
  "severity_level (clear_backlog s) = severity_level s"
  "indentation (clear_backlog s) = indentation s"
  by (simp_all add: clear_backlog_def fold_performWrite_fields)

lemma spool_iteration_events:
  "events (spool_iteration s) =
     events s @
       (if log_buffer s = [] then []
        else MutexLock # map (\<lambda>l. SinkWrite (strip_newlines l)) (log_buffer s) @ [MutexUnlock])"
  by (simp add: spool_iteration_def unlock_def lock_def clear_backlog_events)

lemma writes_locked_map_SinkWrite:
  "writes_locked True (map (\<lambda>l. SinkWrite (f l)) ls @ es) = writes_locked True es"
  by (induction ls) simp_all

lemma writes_unlocked_held_SinkWrite:
  "writes_unlocked True (map (\<lambda>l. SinkWrite (f l)) ls @ es) = (ls = [] \<and> writes_unlocked True es)"
  by (induction ls) auto

lemma wait_for_backend_ends:
  "\<exists>r \<in> set readings. \<not> fst r \<or> 2 \<le> snd r - start \<Longrightarrow>
     \<exists>r. wait_for_backend start readings = Some r"
proof (induction readings)
  case Nil
  then show ?case by simp
next
  case (Cons x xs)
  obtain backend now where x: "x = (backend, now)" by (cases x)
  show ?case
  proof (cases "backend \<and> now - start < 2")
    case True
    with Cons.prems x have "\<exists>r \<in> set xs. \<not> fst r \<or> 2 \<le> snd r - start" by auto
    with Cons.IH True x show ?thesis by simp
  next
    case False
    with x show ?thesis by auto
  qed
qed

lemma wait_for_backend_result:
  "wait_for_backend start readings = Some r \<Longrightarrow>
     r \<in> set readings \<and> (\<not> fst r \<or> 2 \<le> snd r - start)"
  by (induction readings) (auto split: if_splits)

lemma Logger_dtor_events:
  "Logger_dtor start readings s = Some s' \<Longrightarrow>
     events s' = events s @ map (\<lambda>l. SinkWrite (strip_newlines l)) (log_buffer s) \<and>
     log_buffer s' = [] \<and> writer s' = None \<and> severity_level s' = LOG_OFF"
  by (auto simp: Logger_dtor_def Let_def clear_backlog_events clear_backlog_buffer writer_close_def
             clear_backlog_fields split: option.splits if_splits)

lemma setFilename_writer:
  "writer (setFilename can_open file s) = (if can_open file then Some file else None)"
  by (simp add: setFilename_def writer_open_def writer_close_def)

lemma setFilename_fields:
  "files (setFilename can_open file s) = files s"
  "console (setFilename can_open file s) = console s"
  "log_buffer (setFilename can_open file s) = log_buffer s"
  by (simp_all add: setFilename_def writer_open_def writer_close_def)

lemma writer_None_upd: "writer s = None \<Longrightarrow> s\<lparr>writer := None\<rparr> = s"
  by (cases s) simp

lemma setFilename_steps:
  "setFilename can_open file s = writer_open can_open file (s\<lparr>writer := None\<rparr>)"
  by (cases "writer s = None") (simp_all add: setFilename_def writer_close_def writer_None_upd)

lemma print_impl_fields:
  "indentation (print_impl ms args s) = indentation s"
  "severity_level (print_impl ms args s) = severity_level s"
  "writer (print_impl ms args s) = writer s"
  by (induction args arbitrary: ms; simp add: lock_def unlock_def)+

lemma print_fields:
  "indentation (print level now args s) = indentation s"
  "severity_level (print level now args s) = severity_level s"
  "writer (print level now args s) = writer s"
  by (simp_all add: print_def Let_def print_impl_fields)

lemma spool_iteration_writer: "writer (spool_iteration s) = writer s"
  by (simp add: spool_iteration_def unlock_def lock_def clear_backlog_fields)

lemma print_enabled: "enabled l (print level now args s) = enabled l s"
  by (simp add: enabled_def print_fields)

lemma indent_fields:
  "indentation (indent s) = indentation s + 1"
  "log_buffer (indent s) = log_buffer s"
  "severity_level (indent s) = severity_level s"
  by (simp_all add: indent_def lock_def unlock_def)

lemma unindent_fields:
  "indentation (unindent s) = indentation s - 1"
  "log_buffer (unindent s) = log_buffer s"
  "severity_level (unindent s) = severity_level s"
  by (simp_all add: unindent_def lock_def unlock_def)

lemma LogSection_ctor_fields:
  "indentation (LogSection_ctor level now1 now2 title s) = indentation s + 1"
  "severity_level (LogSection_ctor level now1 now2 title s) = severity_level s"
  "log_buffer (LogSection_ctor level now1 now2 title s) =
     log_buffer s @
       (if enabled level s
        then [log_line level now1 (indentation s) title, log_line level now2 (indentation s) ''{'']
        else [])"
  by (simp_all add: LogSection_ctor_def indent_fields print_fields print_buffer print_enabled)

lemma LogSection_dtor_fields:
  "indentation (LogSection_dtor level now s) = indentation s - 1"
  "severity_level (LogSection_dtor level now s) = severity_level s"
  "log_buffer (LogSection_dtor level now s) =
     log_buffer s @
       (if enabled level s then [log_line level now (indentation s - 1) ''}''] else [])"
  by (simp_all add: LogSection_dtor_def unindent_fields print_fields print_buffer enabled_def)

lemma enabled_LogSection:
  "enabled l (LogSection_ctor level now1 now2 title s) = enabled l s"
  "enabled l (LogSection_dtor level now s) = enabled l s"
  by (simp_all add: enabled_def LogSection_ctor_fields LogSection_dtor_fields)

lemma sint_succ: "sint (d :: 32 word) \<noteq> 2147483647 \<Longrightarrow> sint (d + 1) = sint d + 1"
proof -
  assume a: "sint d \<noteq> 2147483647"
  have "sint d < 2 ^ (LENGTH(32) - 1)" by (rule sint_lt)
  moreover have "- (2 ^ (LENGTH(32) - 1)) \<le> sint d" by (rule sint_ge)
  ultimately have "- (2 ^ 31) \<le> sint d + 1 \<and> sint d + 1 < 2 ^ 31" using a by simp
  then have "signed_take_bit 31 (sint d + 1) = sint d + 1"
    by (simp add: signed_take_bit_int_eq_self)
  then show ?thesis by (simp add: sint_word_ariths)
qed

lemma sint_pred: "sint (d :: 32 word) \<noteq> - 2147483648 \<Longrightarrow> sint (d - 1) = sint d - 1"
proof -
  assume a: "sint d \<noteq> - 2147483648"
  have "sint d < 2 ^ (LENGTH(32) - 1)" by (rule sint_lt)
  moreover have "- (2 ^ (LENGTH(32) - 1)) \<le> sint d" by (rule sint_ge)
  ultimately have "- (2 ^ 31) \<le> sint d - 1 \<and> sint d - 1 < 2 ^ 31" using a by simp
  then have "signed_take_bit 31 (sint d - 1) = sint d - 1"
    by (simp add: signed_take_bit_int_eq_self)
  then show ?thesis by (simp add: sint_word_ariths)
qed


subsection \<open>The threshold\<close>

text \<open>
  C1. A call of \<open>print\<close> at level \<open>level\<close>, whatever the threshold \<open>severity_level s\<close>:
  when the threshold is numerically below the level the call returns at once and the
  logger is as it was, buffer included; otherwise the buffer grows by exactly one line,
  which is the timestamp, the tag \<open>P\<close>, the label of the level, four spaces for each
  level of indentation and the arguments in order.
\<close>

theorem print_records_iff_level_le_threshold:
  "(if level_value (severity_level s) < level_value level
    then print level now args s = s
    else log_buffer (print level now args s) =
           log_buffer s @
             [now @ '' P '' @ severity_label level @ indent_spaces (indentation s) @ concat args])"
  by (simp add: print_def print_impl_buffer Let_def)

theorem print_records_iff_level_le_threshold_witness:
  "print LOG_FINE ''t'' [''a'', ''b''] (setSeverityLevel LOG_INFO (Logger_ctor (\<lambda>p. []))) =
     setSeverityLevel LOG_INFO (Logger_ctor (\<lambda>p. [])) \<and>
   log_buffer (print LOG_INFO ''t'' [''a'', ''b'']
       (setSeverityLevel LOG_INFO (Logger_ctor (\<lambda>p. [])))) = [''t P INFO    ab'']"
  using print_records_iff_level_le_threshold
          [of "setSeverityLevel LOG_INFO (Logger_ctor (\<lambda>p. []))" LOG_FINE "''t''" "[''a'', ''b'']"]
        print_records_iff_level_le_threshold
          [of "setSeverityLevel LOG_INFO (Logger_ctor (\<lambda>p. []))" LOG_INFO "''t''" "[''a'', ''b'']"]
  by (simp add: setSeverityLevel_def Logger_ctor_def indent_spaces_def)

text \<open>
  C5, as stated, fails at level \<open>LOG_OFF\<close>: the test \<open>level > severity_level\<close> is false
  when both are \<open>LOG_OFF\<close>, so a call \<open>print<LOG_OFF>\<close> on a logger whose threshold is
  \<open>LOG_OFF\<close> is recorded.
\<close>

theorem print_LOG_OFF_recorded_at_threshold_off:
  "log_buffer (print LOG_OFF ''t'' [''x''] (setSeverityLevel LOG_OFF (Logger_ctor (\<lambda>p. []))))
     \<noteq> log_buffer (setSeverityLevel LOG_OFF (Logger_ctor (\<lambda>p. [])))"
  by (simp add: print_buffer enabled_def setSeverityLevel_def Logger_ctor_def)

text \<open>
  C5, amended. While the threshold is \<open>LOG_OFF\<close>, a call of \<open>print\<close> at any level other
  than \<open>LOG_OFF\<close> leaves the logger, and so the buffer, unchanged; a call at level
  \<open>LOG_OFF\<close> itself is recorded, under the label of \<open>LOG_TRACE\<close>.
\<close>

theorem threshold_off_records_only_LOG_OFF:
  "severity_level s = LOG_OFF \<Longrightarrow>
     (if level = LOG_OFF
      then log_buffer (print level now args s) =
             log_buffer s @ [now @ '' P TRACE   '' @ indent_spaces (indentation s) @ concat args]
      else print level now args s = s)"
  by (cases level) (simp_all add: print_def print_impl_buffer Let_def)

theorem threshold_off_records_only_LOG_OFF_witness:
  "severity_level (Logger_ctor (\<lambda>p. [])) = LOG_OFF \<and>
   print LOG_ERRORS ''t'' [''x''] (Logger_ctor (\<lambda>p. [])) = Logger_ctor (\<lambda>p. []) \<and>
   log_buffer (print LOG_OFF ''t'' [''x''] (Logger_ctor (\<lambda>p. []))) = [''t P TRACE   x'']"
  using threshold_off_records_only_LOG_OFF [of "Logger_ctor (\<lambda>p. [])" LOG_ERRORS "''t''" "[''x'']"]
        threshold_off_records_only_LOG_OFF [of "Logger_ctor (\<lambda>p. [])" LOG_OFF "''t''" "[''x'']"]
  by (simp add: Logger_ctor_def indent_spaces_def)

text \<open>
  C10. \<open>appendToLog\<close> at level \<open>LOG_OFF\<close> does nothing, for every message and every
  threshold: the logger it leaves is the logger it found, so no line is formatted or
  buffered.
\<close>

theorem appendToLog_LOG_OFF_is_noop:
  "appendToLog LOG_OFF now message s = s"
  by simp

subsection \<open>Newlines\<close>

text \<open>
  C4, as stated, fails: \<open>print_impl\<close> stores the text of the stream as it is. A message
  with a newline in it leaves a line with that newline in the buffer.
\<close>

theorem print_stores_embedded_newline:
  "CHR 0x0A \<in> set (last (log_buffer
      (print LOG_ERRORS ''t'' [[CHR ''a'', CHR 0x0A, CHR ''b'']]
         (setSeverityLevel LOG_ALL (Logger_ctor (\<lambda>p. []))))))"
  by (simp add: print_buffer enabled_def log_line_def setSeverityLevel_def Logger_ctor_def)

text \<open>
  C4, amended. The newlines of a line are stripped when the line is written, not when
  it is stored: \<open>performWrite\<close> appends to the sink the line without its newline
  characters, followed by one newline, so the record it writes has no newline inside
  and every write adds exactly one newline to the sink.
\<close>

theorem performWrite_strips_newlines:
  "sink_text (performWrite logline s) = sink_text s @ strip_newlines logline @ [CHR 0x0A] \<and>
   CHR 0x0A \<notin> set (strip_newlines logline) \<and>
   length (filter (\<lambda>c. c = CHR 0x0A) (sink_text (performWrite logline s))) =
     length (filter (\<lambda>c. c = CHR 0x0A) (sink_text s)) + 1"
proof -
  have "filter (\<lambda>c. c = CHR 0x0A) (strip_newlines logline) = []"
    by (simp add: strip_newlines_def)
  then show ?thesis
    by (simp add: performWrite_sink_text) (simp add: strip_newlines_def)
qed

subsection \<open>Draining\<close>

text \<open>
  C7. \<open>clear_backlog\<close> appends to the sink one record for every line of the buffer, in
  the order of the buffer, each followed by a newline, and leaves the buffer empty; the
  sink stays the one it was. A record is the line as \<open>performWrite\<close> writes it, that is
  without newline characters of its own, so for a buffer of lines that have none the
  text appended is the lines themselves.
\<close>

theorem clear_backlog_writes_buffer_in_order:
  "sink_text (clear_backlog s) =
     sink_text s @ concat (map (\<lambda>l. strip_newlines l @ [CHR 0x0A]) (log_buffer s)) \<and>
   log_buffer (clear_backlog s) = [] \<and>
   writer (clear_backlog s) = writer s \<and>
   (list_all (\<lambda>l. CHR 0x0A \<notin> set l) (log_buffer s) \<longrightarrow>
      sink_text (clear_backlog s) =
        sink_text s @ concat (map (\<lambda>l. l @ [CHR 0x0A]) (log_buffer s)))"
proof (intro conjI impI)
  show "sink_text (clear_backlog s) =
     sink_text s @ concat (map (\<lambda>l. strip_newlines l @ [CHR 0x0A]) (log_buffer s))"
    by (rule clear_backlog_sink_text)
  show "log_buffer (clear_backlog s) = []"
    by (simp add: clear_backlog_def)
  show "writer (clear_backlog s) = writer s"
    by (simp add: clear_backlog_def fold_performWrite_fields)
  assume "list_all (\<lambda>l. CHR 0x0A \<notin> set l) (log_buffer s)"
  then show "sink_text (clear_backlog s) =
        sink_text s @ concat (map (\<lambda>l. l @ [CHR 0x0A]) (log_buffer s))"
    by (simp only: clear_backlog_sink_text map_strip_newlines_id)
qed

theorem clear_backlog_writes_buffer_in_order_witness:
  "list_all (\<lambda>l. CHR 0x0A \<notin> set l)
     (log_buffer ((Logger_ctor (\<lambda>p. []))\<lparr>log_buffer := [''a'', ''b'']\<rparr>)) \<and>
   sink_text (clear_backlog ((Logger_ctor (\<lambda>p. []))\<lparr>log_buffer := [''a'', ''b'']\<rparr>)) =
     [CHR ''a'', CHR 0x0A, CHR ''b'', CHR 0x0A] \<and>
   log_buffer (clear_backlog ((Logger_ctor (\<lambda>p. []))\<lparr>log_buffer := [''a'', ''b'']\<rparr>)) = []"
proof -
  have empty: "sink_text ((Logger_ctor (\<lambda>p. []))\<lparr>log_buffer := [''a'', ''b'']\<rparr>) = []"
    by (simp add: sink_text_def Logger_ctor_def)
  show ?thesis
    using clear_backlog_writes_buffer_in_order
            [of "(Logger_ctor (\<lambda>p. []))\<lparr>log_buffer := [''a'', ''b'']\<rparr>"] empty
    by (simp add: strip_newlines_def)
qed

subsection \<open>The spooler and the lock\<close>

text \<open>
  C3, as stated, fails: a round of the spooler that finds a line in the buffer locks
  \<open>write_guard\<close>, calls \<open>clear_backlog\<close>, which writes the line, and unlocks afterwards. The
  write is made while the mutex is held.
\<close>

theorem spool_iteration_writes_while_locked:
  "\<not> writes_unlocked False
       (events (spool_iteration ((Logger_ctor (\<lambda>p. []))\<lparr>log_buffer := [''a'']\<rparr>)))"
  by (simp add: spool_iteration_events Logger_ctor_def)

text \<open>
  C3, amended. The spooler writes to the sink while it holds the buffer lock: a round
  that finds the buffer non-empty locks the mutex, writes every buffered line through
  \<open>performWrite\<close>, clears the buffer and only then unlocks; a round that finds the buffer
  empty does nothing. So every write of a round is made with the mutex held, and a
  round has all its writes outside the lock only when it has none.
\<close>

theorem spool_iteration_writes_under_lock:
  "events (spool_iteration s) =
     events s @
       (if log_buffer s = [] then []
        else MutexLock # map (\<lambda>l. SinkWrite (strip_newlines l)) (log_buffer s) @ [MutexUnlock]) \<and>
   writes_locked False (drop (length (events s)) (events (spool_iteration s))) \<and>
   (writes_unlocked False (drop (length (events s)) (events (spool_iteration s)))
      \<longleftrightarrow> log_buffer s = []) \<and>
   log_buffer (spool_iteration s) = []"
  by (simp add: spool_iteration_events writes_locked_map_SinkWrite writes_unlocked_held_SinkWrite)
     (simp add: spool_iteration_def unlock_def clear_backlog_buffer)

theorem spool_iteration_writes_under_lock_witness:
  "events (spool_iteration ((Logger_ctor (\<lambda>p. []))\<lparr>log_buffer := [''a'', ''b'']\<rparr>)) =
     [MutexLock, SinkWrite ''a'', SinkWrite ''b'', MutexUnlock] \<and>
   log_buffer (spool_iteration ((Logger_ctor (\<lambda>p. []))\<lparr>log_buffer := [''a'', ''b'']\<rparr>)) = []"
proof -
  have init: "events ((Logger_ctor (\<lambda>p. []))\<lparr>log_buffer := [''a'', ''b'']\<rparr>) = []"
    by (simp add: Logger_ctor_def)
  show ?thesis
    using spool_iteration_writes_under_lock
            [of "(Logger_ctor (\<lambda>p. []))\<lparr>log_buffer := [''a'', ''b'']\<rparr>"] init
    by (simp add: strip_newlines_def)
qed

subsection \<open>Teardown\<close>

text \<open>
  C6, as stated, fails: the destructor makes no attempt on \<open>write_guard\<close>. Torn down
  with one line in the buffer, it writes the line, and its whole history is that write:
  no timed attempt comes before it.
\<close>

theorem Logger_dtor_makes_no_timed_attempt:
  "map_option events
     (Logger_dtor 0 [(False, 0)] ((Logger_ctor (\<lambda>p. []))\<lparr>log_buffer := [''a'']\<rparr>)) =
     Some [SinkWrite ''a''] \<and>
   \<not> writes_after_timed_attempt False [SinkWrite ''a'']"
  by (simp add: Logger_dtor_def Let_def Logger_ctor_def clear_backlog_def performWrite_def
        strip_newlines_def)

text \<open>
  C6, amended. The final flush of the teardown makes no attempt to acquire the buffer
  lock, timed or not: once the wait for the worker has ended (a reading shows the worker
  finished, or two ticks gone), the destructor returns, having written every buffered
  line to the sink and emptied the buffer, and nothing it did is an operation on the
  mutex.
\<close>

theorem Logger_dtor_flushes_without_lock:
  assumes "\<exists>r \<in> set readings. \<not> fst r \<or> 2 \<le> snd r - start"
  shows "\<exists>s'. Logger_dtor start readings s = Some s' \<and>
     events s' = events s @ map (\<lambda>l. SinkWrite (strip_newlines l)) (log_buffer s) \<and>
     filter is_mutex_event (drop (length (events s)) (events s')) = [] \<and>
     log_buffer s' = []"
proof -
  obtain r where "wait_for_backend start readings = Some r"
    using wait_for_backend_ends [OF assms] by blast
  then obtain s' where s': "Logger_dtor start readings s = Some s'"
    by (simp add: Logger_dtor_def Let_def)
  have "filter is_mutex_event (map (\<lambda>l. SinkWrite (strip_newlines l)) (log_buffer s)) = []"
    by (induction "log_buffer s") (simp_all add: filter_empty_conv)
  with Logger_dtor_events [OF s'] s' show ?thesis by simp
qed

theorem Logger_dtor_flushes_without_lock_witness:
  "(\<exists>r \<in> set [(True, 1), (False, 1)]. \<not> fst r \<or> (2::int) \<le> snd r - 0) \<and>
   (\<exists>s'. Logger_dtor 0 [(True, 1), (False, 1)]
            ((Logger_ctor (\<lambda>p. []))\<lparr>log_buffer := [''a'', ''b'']\<rparr>) = Some s' \<and>
         events s' = [SinkWrite ''a'', SinkWrite ''b''] \<and>
         log_buffer s' = [])"
proof -
  have h: "\<exists>r \<in> set [(True, 1), (False, 1)]. \<not> fst r \<or> (2::int) \<le> snd r - 0"
    by simp
  have init: "events ((Logger_ctor (\<lambda>p. []))\<lparr>log_buffer := [''a'', ''b'']\<rparr>) = []"
    by (simp add: Logger_ctor_def)
  show ?thesis
    using Logger_dtor_flushes_without_lock
            [OF h, of "(Logger_ctor (\<lambda>p. []))\<lparr>log_buffer := [''a'', ''b'']\<rparr>"] h init
    by (auto simp: strip_newlines_def)
qed

text \<open>
  C2. The wait of the destructor compares \<open>count()\<close>, a number of clock ticks, with
  \<open>2.0\<close>. With the worker never acknowledging, the loop ends at the first reading two
  ticks after the start; on a clock of \<open>10^9\<close> ticks a second that is far short of the
  count of two seconds.
\<close>

theorem wait_for_backend_ends_after_two_ticks:
  "wait_for_backend 0 [(True, 0), (True, 1), (True, 2)] = Some (True, 2) \<and>
   2 < seconds_count 1000000000 2"
  by (simp add: seconds_count_def)

subsection \<open>The sink target\<close>

text \<open>
  C9. \<open>setFilename\<close> closes the stream if it has a file open and then opens the new
  path for appending: the stream ends on the new file when the file system grants the
  path and closed otherwise, never on the old file, and no file's text changes. It
  returns a logger in either case: a failure is not reported. After a success a write
  appends to the text the file had. After a failure the stream stays closed through
  every later write, each write is added to the console and no file changes; \<open>print\<close>
  and the spooler leave the stream as it is.
\<close>

theorem setFilename_failure_falls_back_to_console:
  "setFilename can_open file s = writer_open can_open file (s\<lparr>writer := None\<rparr>) \<and>
   writer (setFilename can_open file s) = (if can_open file then Some file else None) \<and>
   files (setFilename can_open file s) = files s \<and>
   writer (print level now args s) = writer s \<and>
   writer (spool_iteration s) = writer s \<and>
   (can_open file \<longrightarrow>
      files (performWrite logline (setFilename can_open file s)) file =
        files s file @ strip_newlines logline @ [CHR 0x0A]) \<and>
   (\<not> can_open file \<longrightarrow>
      writer (fold performWrite lines (setFilename can_open file s)) = None \<and>
      console (fold performWrite lines (setFilename can_open file s)) =
        console s @ concat (map (\<lambda>l. strip_newlines l @ [CHR 0x0A]) lines) \<and>
      files (fold performWrite lines (setFilename can_open file s)) = files s)"
proof (intro conjI impI)
  show "setFilename can_open file s = writer_open can_open file (s\<lparr>writer := None\<rparr>)"
    by (rule setFilename_steps)
  show "writer (setFilename can_open file s) = (if can_open file then Some file else None)"
    by (rule setFilename_writer)
  show "files (setFilename can_open file s) = files s"
    by (rule setFilename_fields)
  show "writer (print level now args s) = writer s"
    by (rule print_fields)
  show "writer (spool_iteration s) = writer s"
    by (rule spool_iteration_writer)
next
  assume "can_open file"
  then show "files (performWrite logline (setFilename can_open file s)) file =
        files s file @ strip_newlines logline @ [CHR 0x0A]"
    by (simp add: performWrite_def Let_def setFilename_writer setFilename_fields)
next
  assume closed: "\<not> can_open file"
  then have none: "writer (setFilename can_open file s) = None"
    by (simp add: setFilename_writer)
  show "writer (fold performWrite lines (setFilename can_open file s)) = None"
    by (simp add: fold_performWrite_fields none)
  show "console (fold performWrite lines (setFilename can_open file s)) =
           console s @ concat (map (\<lambda>l. strip_newlines l @ [CHR 0x0A]) lines)"
    using fold_performWrite_console [OF none, of lines] by (simp add: setFilename_fields)
  show "files (fold performWrite lines (setFilename can_open file s)) = files s"
    using fold_performWrite_console [OF none, of lines] by (simp add: setFilename_fields)
qed

theorem setFilename_failure_falls_back_to_console_witness:
  "\<not> (\<lambda>p. p = ''ok.log'') ''/no/such/dir/x.log'' \<and>
   writer (setFilename (\<lambda>p. p = ''ok.log'') ''/no/such/dir/x.log''
             ((Logger_ctor (\<lambda>p. []))\<lparr>writer := Some ''old.log''\<rparr>)) = None \<and>
   console (fold performWrite [''a'', ''b'']
      (setFilename (\<lambda>p. p = ''ok.log'') ''/no/such/dir/x.log''
             ((Logger_ctor (\<lambda>p. []))\<lparr>writer := Some ''old.log''\<rparr>))) =
     [CHR ''a'', CHR 0x0A, CHR ''b'', CHR 0x0A] \<and>
   files (performWrite ''c'' (setFilename (\<lambda>p. p = ''ok.log'') ''ok.log''
             ((Logger_ctor (\<lambda>p. []))\<lparr>writer := Some ''old.log''\<rparr>))) ''ok.log'' =
     [CHR ''c'', CHR 0x0A]"
  using setFilename_failure_falls_back_to_console
          [of "\<lambda>p. p = ''ok.log''" "''/no/such/dir/x.log''"
              "(Logger_ctor (\<lambda>p. []))\<lparr>writer := Some ''old.log''\<rparr>"
              _ _ _ "''c''" "[''a'', ''b'']", THEN conjunct2]
        setFilename_failure_falls_back_to_console
          [of "\<lambda>p. p = ''ok.log''" "''ok.log''"
              "(Logger_ctor (\<lambda>p. []))\<lparr>writer := Some ''old.log''\<rparr>"
              _ _ _ "''c''" "[''a'', ''b'']", THEN conjunct2]
  by (simp add: Logger_ctor_def strip_newlines_def)


subsection \<open>Sections\<close>

text \<open>
  C8. Entering a section (the constructor of \<open>LogSection\<close>) logs the title and an
  opening brace at the current depth and then adds one to \<open>indentation\<close>; leaving it (the
  destructor) takes one from \<open>indentation\<close> and then logs a closing brace at the new
  depth. The counter is a machine integer: the sum is the 32-bit one, and it is the
  integer sum except at the largest, respectively smallest, \<open>int\<close>. So entering and
  then leaving restores the depth, whatever it was; and from depth 0 a section \<open>y\<close>
  entered inside a section \<open>x\<close> and both left ends at depth 0, with the three lines of
  \<open>y\<close> four spaces deeper than the three lines of \<open>x\<close>. The lines are those of
  \<open>print\<close>, so they exist when the level passes the threshold.
\<close>

theorem LogSection_enter_exit:
  "indentation (LogSection_ctor level now1 now2 title s) = indentation s + 1 \<and>
   (sint (indentation s) \<noteq> 2147483647 \<longrightarrow>
      sint (indentation (LogSection_ctor level now1 now2 title s)) = sint (indentation s) + 1) \<and>
   log_buffer (LogSection_ctor level now1 now2 title s) =
     log_buffer s @
       (if enabled level s
        then [log_line level now1 (indentation s) title,
              log_line level now2 (indentation s) ''{'']
        else []) \<and>
   indentation (LogSection_dtor level now3 s) = indentation s - 1 \<and>
   (sint (indentation s) \<noteq> - 2147483648 \<longrightarrow>
      sint (indentation (LogSection_dtor level now3 s)) = sint (indentation s) - 1) \<and>
   log_buffer (LogSection_dtor level now3 s) =
     log_buffer s @
       (if enabled level s then [log_line level now3 (indentation s - 1) ''}''] else []) \<and>
   indentation (LogSection_dtor level now3 (LogSection_ctor level now1 now2 title s)) =
     indentation s \<and>
   (indentation s = 0 \<longrightarrow>
      indentation
        (LogSection_dtor lx n6 (LogSection_dtor ly n5
           (LogSection_ctor ly n3 n4 y (LogSection_ctor lx n1 n2 x s)))) = 0 \<and>
      log_buffer
        (LogSection_dtor lx n6 (LogSection_dtor ly n5
           (LogSection_ctor ly n3 n4 y (LogSection_ctor lx n1 n2 x s)))) =
        log_buffer s @
          (if enabled lx s
           then [n1 @ '' P '' @ severity_label lx @ x,
                 n2 @ '' P '' @ severity_label lx @ ''{'']
           else []) @
          (if enabled ly s
           then [n3 @ '' P '' @ severity_label ly @ ''    '' @ y,
                 n4 @ '' P '' @ severity_label ly @ ''    '' @ ''{'',
                 n5 @ '' P '' @ severity_label ly @ ''    '' @ ''}'']
           else []) @
          (if enabled lx s then [n6 @ '' P '' @ severity_label lx @ ''}''] else []))"
proof (intro conjI impI)
  show "indentation (LogSection_ctor level now1 now2 title s) = indentation s + 1"
    by (simp add: LogSection_ctor_fields)
  show "log_buffer (LogSection_ctor level now1 now2 title s) =
     log_buffer s @
       (if enabled level s
        then [log_line level now1 (indentation s) title,
              log_line level now2 (indentation s) ''{'']
        else [])"
    by (simp add: LogSection_ctor_fields)
  show "indentation (LogSection_dtor level now3 s) = indentation s - 1"
    by (simp add: LogSection_dtor_fields)
  show "log_buffer (LogSection_dtor level now3 s) =
     log_buffer s @
       (if enabled level s then [log_line level now3 (indentation s - 1) ''}''] else [])"
    by (simp add: LogSection_dtor_fields)
  show "indentation (LogSection_dtor level now3 (LogSection_ctor level now1 now2 title s)) =
     indentation s"
    by (simp add: LogSection_ctor_fields LogSection_dtor_fields)
next
  assume "sint (indentation s) \<noteq> 2147483647"
  then show "sint (indentation (LogSection_ctor level now1 now2 title s)) =
      sint (indentation s) + 1"
    by (simp add: LogSection_ctor_fields sint_succ)
next
  assume "sint (indentation s) \<noteq> - 2147483648"
  then show "sint (indentation (LogSection_dtor level now3 s)) = sint (indentation s) - 1"
    by (simp add: LogSection_dtor_fields sint_pred)
next
  assume zero: "indentation s = 0"
  show "indentation
        (LogSection_dtor lx n6 (LogSection_dtor ly n5
           (LogSection_ctor ly n3 n4 y (LogSection_ctor lx n1 n2 x s)))) = 0"
    by (simp add: LogSection_ctor_fields LogSection_dtor_fields zero)
  have l0: "log_line l n 0 m = n @ '' P '' @ severity_label l @ m" for l n m
    by (simp add: log_line_def indent_spaces_def)
  have l1: "log_line l n 1 m = n @ '' P '' @ severity_label l @ ''    '' @ m" for l n m
    by (simp add: log_line_def indent_spaces_def)
  show "log_buffer
        (LogSection_dtor lx n6 (LogSection_dtor ly n5
           (LogSection_ctor ly n3 n4 y (LogSection_ctor lx n1 n2 x s)))) =
        log_buffer s @
          (if enabled lx s
           then [n1 @ '' P '' @ severity_label lx @ x,
                 n2 @ '' P '' @ severity_label lx @ ''{'']
           else []) @
          (if enabled ly s
           then [n3 @ '' P '' @ severity_label ly @ ''    '' @ y,
                 n4 @ '' P '' @ severity_label ly @ ''    '' @ ''{'',
                 n5 @ '' P '' @ severity_label ly @ ''    '' @ ''}'']
           else []) @
          (if enabled lx s then [n6 @ '' P '' @ severity_label lx @ ''}''] else [])"
    by (simp add: LogSection_ctor_fields LogSection_dtor_fields enabled_LogSection zero l0 l1)
qed

theorem LogSection_enter_exit_witness:
  "sint (indentation (setSeverityLevel LOG_INFO (Logger_ctor (\<lambda>p. [])))) \<noteq> 2147483647 \<and>
   sint (indentation (setSeverityLevel LOG_INFO (Logger_ctor (\<lambda>p. [])))) \<noteq> - 2147483648 \<and>
   indentation (setSeverityLevel LOG_INFO (Logger_ctor (\<lambda>p. []))) = 0 \<and>
   sint (indentation (LogSection_ctor LOG_INFO ''t1'' ''t2'' ''X''
      (setSeverityLevel LOG_INFO (Logger_ctor (\<lambda>p. []))))) = 1 \<and>
   sint (indentation (LogSection_dtor LOG_INFO ''t3''
      (setSeverityLevel LOG_INFO (Logger_ctor (\<lambda>p. []))))) = - 1 \<and>
   indentation
     (LogSection_dtor LOG_INFO ''t6'' (LogSection_dtor LOG_ERRORS ''t5''
        (LogSection_ctor LOG_ERRORS ''t3'' ''t4'' ''Y''
           (LogSection_ctor LOG_INFO ''t1'' ''t2'' ''X''
              (setSeverityLevel LOG_INFO (Logger_ctor (\<lambda>p. []))))))) = 0 \<and>
   log_buffer
     (LogSection_dtor LOG_INFO ''t6'' (LogSection_dtor LOG_ERRORS ''t5''
        (LogSection_ctor LOG_ERRORS ''t3'' ''t4'' ''Y''
           (LogSection_ctor LOG_INFO ''t1'' ''t2'' ''X''
              (setSeverityLevel LOG_INFO (Logger_ctor (\<lambda>p. []))))))) =
     [''t1 P INFO    X'', ''t2 P INFO    {'',
      ''t3 P ERROR       Y'', ''t4 P ERROR       {'', ''t5 P ERROR       }'',
      ''t6 P INFO    }'']"
proof -
  have init:
    "indentation (setSeverityLevel LOG_INFO (Logger_ctor (\<lambda>p. []))) = 0"
    "log_buffer (setSeverityLevel LOG_INFO (Logger_ctor (\<lambda>p. []))) = []"
    "enabled LOG_INFO (setSeverityLevel LOG_INFO (Logger_ctor (\<lambda>p. [])))"
    "enabled LOG_ERRORS (setSeverityLevel LOG_INFO (Logger_ctor (\<lambda>p. [])))"
    by (simp_all add: setSeverityLevel_def Logger_ctor_def enabled_def)
  show ?thesis
    using LogSection_enter_exit
            [of LOG_INFO "''t1''" "''t2''" "''X''"
                "setSeverityLevel LOG_INFO (Logger_ctor (\<lambda>p. []))" "''t3''"
                LOG_INFO "''t6''" LOG_ERRORS "''t5''" "''t3''" "''t4''" "''Y''" "''t1''" "''t2''" "''X''"]
          init
    by simp
qed


end
